theory Spec2Isabelle
  imports Main "HOL-Library.Signed_Division" "HOL-Library.Sublist"
begin

section \<open>Data model of the IronMQ adapter (ironmq/queue.go)\<close>

text \<open>
  Go's \<open>error\<close> values as the adapter tells them apart. The only test the code makes is
  the type assertion \<open>err.(api.HTTPResponseError)\<close> followed by \<open>StatusCode()\<close> and
  \<open>Error()\<close>; a network timeout is an error of the transport and has no status code;
  \<open>ErrorString\<close> is an \<open>errors.New\<close> value.
\<close>

datatype error =
    HTTPResponseError int string
  | NetworkTimeout
  | ErrorString string

fun http_status :: "error \<Rightarrow> int option" where
  "http_status (HTTPResponseError c m) = Some c"
| "http_status NetworkTimeout = None"
| "http_status (ErrorString m) = None"

fun error_text :: "error \<Rightarrow> string" where
  "error_text (HTTPResponseError c m) = m"
| "error_text NetworkTimeout = ''net/http: timeout awaiting response headers''"
| "error_text (ErrorString m) = m"

text \<open>\<open>time.Duration\<close> counts nanoseconds in an int64; \<open>time.Second\<close> is \<open>10^9\<close>.\<close>

type_synonym Duration = int

definition Second :: Duration where
  "Second = 1000000000"

text \<open>The fields of \<open>msgqueue.Message\<close> and \<open>mq.Message\<close> that the adapter touches.\<close>

record Message =
  Id :: string
  Body :: string
  Delay :: Duration
  ReservationId :: string
  ReservedCount :: int
  Compress :: bool

record mq_Message =
  mq_Id :: string
  mq_Body :: string
  mq_Delay :: int
  mq_ReservationId :: string
  mq_ReservedCount :: int

record Options =
  Name :: string
  opt_Compress :: bool
  ReservationTimeout :: Duration
  WaitTimeout :: Duration

text \<open>
  The IronMQ client \<open>q.q\<close> (package \<open>mq\<close> of iron_go3) is an external service: each of
  its methods is a transition of the service's state \<open>'s\<close> that also yields the method's
  result. Nothing is assumed about what the service answers.
\<close>

record 's mq_Queue =
  mq_Name :: string
  LongPoll :: "int \<Rightarrow> int \<Rightarrow> int \<Rightarrow> bool \<Rightarrow> 's \<Rightarrow> (error + mq_Message list) \<times> 's"
  ReleaseMessage :: "string \<Rightarrow> string \<Rightarrow> int \<Rightarrow> 's \<Rightarrow> error option \<times> 's"
  DeleteMessage :: "string \<Rightarrow> string \<Rightarrow> 's \<Rightarrow> error option \<times> 's"
  DeleteReservedMessages :: "mq_Message list \<Rightarrow> 's \<Rightarrow> error option \<times> 's"
  ConfigCreateQueue :: "string \<Rightarrow> 's \<Rightarrow> error option \<times> 's"

record 's Queue =
  q :: "'s mq_Queue"
  opt :: Options

section \<open>Observing calls\<close>

text \<open>
  To state which calls an operation makes, a call is run on a state paired with a log:
  \<open>logged c f\<close> behaves as \<open>f\<close> and appends \<open>c\<close> to the log.
\<close>

definition logged :: "'c \<Rightarrow> ('s \<Rightarrow> 'r \<times> 's) \<Rightarrow> 's \<times> 'c list \<Rightarrow> 'r \<times> 's \<times> 'c list" where
  "logged c f = (\<lambda>(s, tr). case f s of (r, s') \<Rightarrow> (r, s', tr @ [c]))"

datatype call =
    CLongPoll int int int bool
  | CReleaseMessage string string int
  | CDeleteMessage string string
  | CDeleteReservedMessages "mq_Message list"
  | CConfigCreateQueue string

definition traced :: "'s mq_Queue \<Rightarrow> ('s \<times> call list) mq_Queue" where
  "traced b = \<lparr>
     mq_Name = mq_Name b,
     LongPoll = (\<lambda>n r w d. logged (CLongPoll n r w d) (LongPoll b n r w d)),
     ReleaseMessage = (\<lambda>i r d. logged (CReleaseMessage i r d) (ReleaseMessage b i r d)),
     DeleteMessage = (\<lambda>i r. logged (CDeleteMessage i r) (DeleteMessage b i r)),
     DeleteReservedMessages = (\<lambda>ms. logged (CDeleteReservedMessages ms) (DeleteReservedMessages b ms)),
     ConfigCreateQueue = (\<lambda>n. logged (CConfigCreateQueue n) (ConfigCreateQueue b n)) \<rparr>"

definition traced_Queue :: "'s Queue \<Rightarrow> ('s \<times> call list) Queue" where
  "traced_Queue Q = \<lparr> q = traced (q Q), opt = opt Q \<rparr>"

text \<open>\<open>recorded fn\<close> behaves as \<open>fn\<close> and appends each result of \<open>fn\<close> to a list.\<close>

definition recorded :: "('s \<Rightarrow> 'r \<times> 's) \<Rightarrow> 's \<times> 'r list \<Rightarrow> 'r \<times> 's \<times> 'r list" where
  "recorded fn = (\<lambda>(s, rs). case fn s of (r, s') \<Rightarrow> (r, s', rs @ [r]))"

section \<open>The retry helper\<close>

text \<open>
  \<open>retry\<close> (queue.go, line 325): the loop \<open>for i := 0; i < 3; i++\<close>, with \<open>err\<close> the
  loop's variable. \<open>retryable\<close> is the test of line 332.
\<close>

definition retryable :: "error \<Rightarrow> bool" where
  "retryable err = (case http_status err of Some c \<Rightarrow> c \<ge> 500 | None \<Rightarrow> False)"

function retry_loop :: "nat \<Rightarrow> error option \<Rightarrow> ('s \<Rightarrow> error option \<times> 's) \<Rightarrow> 's \<Rightarrow> error option \<times> 's" where
  "retry_loop i err fn s =
     (if i < 3 then
        (case fn s of
           (None, s') \<Rightarrow> (None, s')
         | (Some e, s') \<Rightarrow>
             if retryable e then retry_loop (i + 1) (Some e) fn s'
             else (Some e, s'))
      else (err, s))"
  by pat_completeness auto
termination
  by (relation "measure (\<lambda>(i, err, fn, s). 3 - i)") auto

definition retry :: "('s \<Rightarrow> error option \<times> 's) \<Rightarrow> 's \<Rightarrow> error option \<times> 's" where
  "retry fn s = retry_loop 0 None fn s"

section \<open>The delete-batch splitter\<close>

text \<open>
  \<open>splitDeleteBatch\<close> (queue.go, line 316) returns the pair (flush now, hold back);
  a nil slice is the empty list.
\<close>

definition messagesLimit :: nat where
  "messagesLimit = 10"

definition splitDeleteBatch :: "'m list \<Rightarrow> 'm list \<times> 'm list" where
  "splitDeleteBatch msgs =
     (if length msgs \<ge> messagesLimit then (msgs, []) else ([], msgs))"

section \<open>Queue operations\<close>

text \<open>\<open>createQueue\<close> (queue.go, line 149).\<close>

definition createQueue :: "'s Queue \<Rightarrow> 's \<Rightarrow> error option \<times> 's" where
  "createQueue Q s = ConfigCreateQueue (q Q) (mq_Name (q Q)) s"

text \<open>
  \<open>ReserveN\<close> (queue.go, line 180). Go's \<open>/\<close> on integers truncates towards zero
  (\<open>sdiv\<close>); \<open>strings.Contains s sub\<close> is \<open>sublist sub s\<close>; the result \<open>(nil, nil)\<close> is
  \<open>Inr []\<close>. The messages built at line 203 carry the four fields copied from the
  backend's message and zero values elsewhere.
\<close>

definition from_mq :: "mq_Message \<Rightarrow> Message" where
  "from_mq m = \<lparr> Id = mq_Id m, Body = mq_Body m, Delay = 0,
                 ReservationId = mq_ReservationId m, ReservedCount = mq_ReservedCount m,
                 Compress = False \<rparr>"

definition ReserveN :: "'s Queue \<Rightarrow> int \<Rightarrow> 's \<Rightarrow> (error + Message list) \<times> 's" where
  "ReserveN Q n0 s =
     (let n = (if n0 > 100 then 100 else n0);
          reservationSecs = ReservationTimeout (opt Q) sdiv Second;
          waitSecs = WaitTimeout (opt Q) sdiv Second
      in case LongPoll (q Q) n reservationSecs waitSecs False s of
           (Inl err, s1) \<Rightarrow>
             (if http_status err = Some 404 then
                (if sublist ''Message not found'' (error_text err) then (Inr [], s1)
                 else if sublist ''Queue not found'' (error_text err)
                   then (Inl err, snd (createQueue Q s1))
                   else (Inl err, s1))
              else (Inl err, s1))
         | (Inr mqMsgs, s1) \<Rightarrow> (Inr (map from_mq mqMsgs), s1))"

text \<open>\<open>Release\<close> (queue.go, line 214) and \<open>Delete\<close> (line 220).\<close>

definition Release :: "'s Queue \<Rightarrow> Message \<Rightarrow> 's \<Rightarrow> error option \<times> 's" where
  "Release Q msg s =
     retry (ReleaseMessage (q Q) (Id msg) (ReservationId msg) (Delay msg sdiv Second)) s"

definition Delete :: "'s Queue \<Rightarrow> Message \<Rightarrow> 's \<Rightarrow> error option \<times> 's" where
  "Delete Q msg s =
     (case retry (DeleteMessage (q Q) (Id msg) (ReservationId msg)) s of
        (None, s') \<Rightarrow> (None, s')
      | (Some err, s') \<Rightarrow>
          if http_status err = Some 404 then (None, s') else (Some err, s'))"

text \<open>
  \<open>deleteBatch\<close> (queue.go, line 287). \<open>msgutil.UnwrapMessage\<close> is not among the
  sources and is a parameter \<open>U\<close>. The loop of line 293 stops at the first message that
  does not unwrap. The log line 309 has no effect on the result.
\<close>

definition to_mq :: "Message \<Rightarrow> mq_Message" where
  "to_mq msg = \<lparr> mq_Id = Id msg, mq_Body = [], mq_Delay = 0,
                   mq_ReservationId = ReservationId msg, mq_ReservedCount = 0 \<rparr>"

fun unwrap_all :: "(Message \<Rightarrow> error + Message) \<Rightarrow> Message list \<Rightarrow> error + mq_Message list" where
  "unwrap_all U [] = Inr []"
| "unwrap_all U (m # ms) =
     (case U m of
        Inl err \<Rightarrow> Inl err
      | Inr msg \<Rightarrow>
          (case unwrap_all U ms of
             Inl err \<Rightarrow> Inl err
           | Inr mqMsgs \<Rightarrow> Inr (to_mq msg # mqMsgs)))"

definition deleteBatch ::
  "(Message \<Rightarrow> error + Message) \<Rightarrow> 's Queue \<Rightarrow> Message list \<Rightarrow> 's \<Rightarrow> error option \<times> 's" where
  "deleteBatch U Q msgs s =
     (if length msgs = 0 then (Some (ErrorString ''ironmq: no messages to delete''), s)
      else case unwrap_all U msgs of
             Inl err \<Rightarrow> (Some err, s)
           | Inr mqMsgs \<Rightarrow> retry (DeleteReservedMessages (q Q) mqMsgs) s)"

text \<open>
  \<open>Add\<close> (queue.go, line 155). \<open>Message.EncodeArgs\<close>, \<open>msgutil.WrapMessage\<close> and the
  add-stage \<open>memqueue.Queue.Add\<close> are not among the sources and are the parameters
  \<open>EncodeArgs\<close> (which may change its receiver), \<open>WrapMessage\<close> and \<open>addQueue_Add\<close> (a
  transition of the add-stage's state \<open>'a\<close>). The caller's message is changed in place,
  so it is returned too.
\<close>

definition Add ::
  "(Message \<Rightarrow> (error + string) \<times> Message) \<Rightarrow> (Message \<Rightarrow> Message) \<Rightarrow>
   (Message \<Rightarrow> 'a \<Rightarrow> error option \<times> 'a) \<Rightarrow> Options \<Rightarrow> Message \<Rightarrow> 'a \<Rightarrow>
   error option \<times> Message \<times> 'a" where
  "Add EncodeArgs WrapMessage addQueue_Add options msg a =
     (case EncodeArgs msg of
        (Inl err, msg1) \<Rightarrow> (Some err, msg1, a)
      | (Inr body, msg1) \<Rightarrow>
          (let msg2 = msg1\<lparr>Compress := opt_Compress options\<rparr>
           in case addQueue_Add (WrapMessage msg2) a of
                (r, a') \<Rightarrow> (r, msg2, a')))"

text \<open>
  \<open>CloseTimeout\<close> (queue.go, line 243). \<open>p\<close> is the processor when one has been created
  (\<open>q.p != nil\<close>); \<open>Processor.StopTimeout\<close>, \<open>Batcher.SetSync\<close> and the delete-stage
  \<open>memqueue.Queue.CloseTimeout\<close> are not among the sources and are parameters, each a
  transition of the state \<open>'w\<close> they share.
\<close>

definition first_error :: "error option \<Rightarrow> error option \<Rightarrow> error option" where
  "first_error firstErr err = (if err \<noteq> None \<and> firstErr = None then err else firstErr)"

definition CloseTimeout ::
  "'p option \<Rightarrow> ('p \<Rightarrow> Duration \<Rightarrow> 'w \<Rightarrow> error option \<times> 'w) \<Rightarrow> (bool \<Rightarrow> 'w \<Rightarrow> unit \<times> 'w) \<Rightarrow>
   (Duration \<Rightarrow> 'w \<Rightarrow> error option \<times> 'w) \<Rightarrow> Duration \<Rightarrow> 'w \<Rightarrow> error option \<times> 'w" where
  "CloseTimeout p StopTimeout SetSync delQueue_CloseTimeout timeout w =
     (let (firstErr1, w1) =
            (case p of
               None \<Rightarrow> (None, w)
             | Some pr \<Rightarrow>
                 (case StopTimeout pr timeout w of
                    (err, w') \<Rightarrow> (first_error None err, w')));
          w2 = snd (SetSync True w1)
      in case delQueue_CloseTimeout timeout w2 of
           (err, w3) \<Rightarrow> (first_error firstErr1 err, w3))"

datatype step = SStopTimeout Duration | SSetSync bool | SDelQueueCloseTimeout Duration

section \<open>The delete batcher\<close>

text \<open>
  Modelled from the spec: the Batcher (package msgqueue) is not among the sources; the
  adapter builds it at line 107 with \<open>deleteBatch\<close> as handler and \<open>splitDeleteBatch\<close> as
  splitter and sets no maximal size. After the spec's section 4.3: \<open>Add\<close> appends the
  message and asks the splitter which part to flush now and which to hold back (in
  synchronous mode everything is flushed); a non-empty flush is handed to the handler;
  when the timer fires the held-back tail is flushed anyway; \<open>SetSync\<close> sets the mode
  and, when it switches synchronous mode on, flushes the tail (section 4.4, shutdown
  step 3: the batcher is flushed through \<open>SetSync(true)\<close>). Time is the event
  \<open>ETimeout\<close>. A flush error goes back to the supplying processor, which may add the
  messages again: that is a later \<open>EAdd\<close>.
\<close>

text \<open>Modelled from the spec: the batcher's buffer of pending messages and its mode.\<close>

record 'm Batcher =
  batch :: "'m list"
  sync :: bool

text \<open>Modelled from the spec: what can happen to a batcher (an \<open>Add\<close>, the timer firing, a \<open>SetSync\<close>).\<close>

datatype 'm event = EAdd 'm | ETimeout | ESetSync bool

text \<open>Modelled from the spec: \<open>Batcher.Add\<close> (section 4.3).\<close>

definition Batcher_Add ::
  "('m list \<Rightarrow> 'm list \<times> 'm list) \<Rightarrow> ('m list \<Rightarrow> 'w \<Rightarrow> error option \<times> 'w) \<Rightarrow>
   'm \<Rightarrow> 'm Batcher \<times> 'w \<Rightarrow> 'm Batcher \<times> 'w" where
  "Batcher_Add Splitter Handler m = (\<lambda>(b, w).
     (let msgs = batch b @ [m];
          (flush, hold) = (if sync b then (msgs, []) else Splitter msgs)
      in if flush = [] then (b\<lparr>batch := hold\<rparr>, w)
         else (b\<lparr>batch := hold\<rparr>, snd (Handler flush w))))"

text \<open>Modelled from the spec: the timer fires and the tail is flushed (sections 4.3 and 6.1).\<close>

definition Batcher_Timeout ::
  "('m list \<Rightarrow> 'w \<Rightarrow> error option \<times> 'w) \<Rightarrow> 'm Batcher \<times> 'w \<Rightarrow> 'm Batcher \<times> 'w" where
  "Batcher_Timeout Handler = (\<lambda>(b, w).
     if batch b = [] then (b, w) else (b\<lparr>batch := []\<rparr>, snd (Handler (batch b) w)))"

text \<open>Modelled from the spec: \<open>Batcher.SetSync\<close> (sections 4.3 and 4.4).\<close>

definition Batcher_SetSync ::
  "('m list \<Rightarrow> 'w \<Rightarrow> error option \<times> 'w) \<Rightarrow> bool \<Rightarrow> 'm Batcher \<times> 'w \<Rightarrow> 'm Batcher \<times> 'w" where
  "Batcher_SetSync Handler v = (\<lambda>(b, w).
     if v \<and> batch b \<noteq> [] then (b\<lparr>batch := [], sync := v\<rparr>, snd (Handler (batch b) w))
     else (b\<lparr>sync := v\<rparr>, w))"

text \<open>Modelled from the spec: one event, and a sequence of events from left to right.\<close>

fun Batcher_step ::
  "('m list \<Rightarrow> 'm list \<times> 'm list) \<Rightarrow> ('m list \<Rightarrow> 'w \<Rightarrow> error option \<times> 'w) \<Rightarrow>
   'm event \<Rightarrow> 'm Batcher \<times> 'w \<Rightarrow> 'm Batcher \<times> 'w" where
  "Batcher_step Splitter Handler (EAdd m) bw = Batcher_Add Splitter Handler m bw"
| "Batcher_step Splitter Handler ETimeout bw = Batcher_Timeout Handler bw"
| "Batcher_step Splitter Handler (ESetSync v) bw = Batcher_SetSync Handler v bw"

fun Batcher_run ::
  "('m list \<Rightarrow> 'm list \<times> 'm list) \<Rightarrow> ('m list \<Rightarrow> 'w \<Rightarrow> error option \<times> 'w) \<Rightarrow>
   'm event list \<Rightarrow> 'm Batcher \<times> 'w \<Rightarrow> 'm Batcher \<times> 'w" where
  "Batcher_run Splitter Handler [] bw = bw"
| "Batcher_run Splitter Handler (e # es) bw =
     Batcher_run Splitter Handler es (Batcher_step Splitter Handler e bw)"

text \<open>Modelled from the spec: a new batcher is empty and asynchronous.\<close>

definition NewBatcher :: "'m Batcher" where
  "NewBatcher = \<lparr> batch = [], sync = False \<rparr>"

text \<open>The delete batcher of a queue, as \<open>initDelQueue\<close> (queue.go, line 95) wires it.\<close>

definition delBatcher_run ::
  "(Message \<Rightarrow> error + Message) \<Rightarrow> 's Queue \<Rightarrow> Message event list \<Rightarrow>
   Message Batcher \<times> 's \<Rightarrow> Message Batcher \<times> 's" where
  "delBatcher_run U Q = Batcher_run splitDeleteBatch (deleteBatch U Q)"

text \<open>The number of messages a backend call carries.\<close>

fun call_size :: "call \<Rightarrow> nat" where
  "call_size (CDeleteReservedMessages ms) = length ms"
| "call_size (CLongPoll n r w d) = 0"
| "call_size (CReleaseMessage i r d) = 0"
| "call_size (CDeleteMessage i r) = 0"
| "call_size (CConfigCreateQueue n) = 0"

section \<open>Concrete inputs\<close>

text \<open>
  A backend that answers from a script: every call takes the next answer, \<open>None\<close> (or an
  exhausted script) being success; a successful long poll returns no message.
\<close>

definition scripted :: "error option list \<Rightarrow> error option \<times> error option list" where
  "scripted s = (case s of [] \<Rightarrow> (None, []) | r # rest \<Rightarrow> (r, rest))"

definition scripted_poll ::
  "error option list \<Rightarrow> (error + mq_Message list) \<times> error option list" where
  "scripted_poll s = (case scripted s of (None, s') \<Rightarrow> (Inr [], s') | (Some e, s') \<Rightarrow> (Inl e, s'))"

definition scripted_mq :: "(error option list) mq_Queue" where
  "scripted_mq = \<lparr>
     mq_Name = ''jobs'',
     LongPoll = (\<lambda>n r w d. scripted_poll),
     ReleaseMessage = (\<lambda>i r d. scripted),
     DeleteMessage = (\<lambda>i r. scripted),
     DeleteReservedMessages = (\<lambda>ms. scripted),
     ConfigCreateQueue = (\<lambda>n. scripted) \<rparr>"

text \<open>A backend that always has as many messages as a long poll asks for.\<close>

definition full_mq :: "unit mq_Queue" where
  "full_mq = \<lparr>
     mq_Name = ''jobs'',
     LongPoll = (\<lambda>n r w d s.
        (Inr (replicate (nat n) \<lparr> mq_Id = ''id'', mq_Body = ''body'', mq_Delay = 0,
                                   mq_ReservationId = ''r'', mq_ReservedCount = 1 \<rparr>), s)),
     ReleaseMessage = (\<lambda>i r d s. (None, s)),
     DeleteMessage = (\<lambda>i r s. (None, s)),
     DeleteReservedMessages = (\<lambda>ms s. (None, s)),
     ConfigCreateQueue = (\<lambda>n s. (None, s)) \<rparr>"

definition demo_Options :: Options where
  "demo_Options = \<lparr> Name = ''jobs'', opt_Compress = True,
                     ReservationTimeout = 300 * Second, WaitTimeout = 10 * Second \<rparr>"

definition scripted_Queue :: "(error option list) Queue" where
  "scripted_Queue = \<lparr> q = scripted_mq, opt = demo_Options \<rparr>"

definition full_Queue :: "unit Queue" where
  "full_Queue = \<lparr> q = full_mq, opt = demo_Options \<rparr>"

text \<open>A backend that answers every long poll with 120 messages, whatever the count asked.\<close>

definition flood_mq :: "unit mq_Queue" where
  "flood_mq = \<lparr>
     mq_Name = ''jobs'',
     LongPoll = (\<lambda>n r w d s.
        (Inr (replicate 120 \<lparr> mq_Id = ''id'', mq_Body = ''body'', mq_Delay = 0,
                               mq_ReservationId = ''r'', mq_ReservedCount = 1 \<rparr>), s)),
     ReleaseMessage = (\<lambda>i r d s. (None, s)),
     DeleteMessage = (\<lambda>i r s. (None, s)),
     DeleteReservedMessages = (\<lambda>ms s. (None, s)),
     ConfigCreateQueue = (\<lambda>n s. (None, s)) \<rparr>"

definition flood_Queue :: "unit Queue" where
  "flood_Queue = \<lparr> q = flood_mq, opt = demo_Options \<rparr>"

definition demo_msg :: "nat \<Rightarrow> Message" where
  "demo_msg i = \<lparr> Id = replicate (Suc i) CHR ''m'', Body = [], Delay = 0,
                  ReservationId = ''r'', ReservedCount = 1, Compress = False \<rparr>"

definition demo_msgs :: "Message list" where
  "demo_msgs = map demo_msg [0..<15]"

text \<open>An operation that fails with the same error at every call.\<close>

definition always :: "error \<Rightarrow> unit \<Rightarrow> error option \<times> unit" where
  "always e s = (Some e, s)"

text \<open>
  The spec's error kind \<open>BackendTransient\<close> (section 7), in the spec's words: a 5xx
  response or a network timeout.
\<close>

definition spec_BackendTransient :: "error \<Rightarrow> bool" where
  "spec_BackendTransient err =
     (case err of
        HTTPResponseError c m \<Rightarrow> 500 \<le> c \<and> c \<le> 599
      | NetworkTimeout \<Rightarrow> True
      | ErrorString m \<Rightarrow> False)"

text \<open>Whether an attempt's result makes \<open>retry\<close> go on: the test of line 332 on a result.\<close>

definition is_retryable :: "error option \<Rightarrow> bool" where
  "is_retryable r = (case r of None \<Rightarrow> False | Some e \<Rightarrow> retryable e)"

text \<open>Every call of a log carries at most \<open>n\<close> messages.\<close>

definition calls_within :: "nat \<Rightarrow> call list \<Rightarrow> bool" where
  "calls_within n tr = list_all (\<lambda>c. call_size c \<le> n) tr"

text \<open>A codec that fails on a message without body, and a wrapper that marks the body.\<close>

definition demo_EncodeArgs :: "Message \<Rightarrow> (error + string) \<times> Message" where
  "demo_EncodeArgs msg =
     (if Body msg = [] then (Inl (ErrorString ''msgqueue: codec error''), msg)
      else (Inr (Body msg), msg))"

definition demo_WrapMessage :: "Message \<Rightarrow> Message" where
  "demo_WrapMessage msg = msg\<lparr> Body := ''wrapped:'' @ Body msg \<rparr>"

definition demo_addQueue_Add :: "Message \<Rightarrow> Message list \<Rightarrow> error option \<times> Message list" where
  "demo_addQueue_Add msg buf = (None, buf @ [msg])"

section \<open>Auxiliary lemmas\<close>

lemma retry_loop_logged:
  "\<exists>k. k \<le> 3 - i \<and> (i < 3 \<longrightarrow> 1 \<le> k)
     \<and> retry_loop i err (logged c fn) (s, tr)
       = (fst (retry_loop i err fn s), snd (retry_loop i err fn s), tr @ replicate k c)"
proof (induction "3 - i" arbitrary: i err s tr)
  case 0
  then have "\<not> i < 3" by simp
  then show ?case by (intro exI[of _ 0]) simp
next
  case (Suc n)
  then have i3: "i < 3" and n: "n = 3 - (i + 1)" by simp_all
  obtain r s' where f: "fn s = (r, s')" by (cases "fn s")
  show ?case
  proof (cases "\<exists>e. r = Some e \<and> retryable e")
    case True
    then obtain e where e: "r = Some e" "retryable e" by blast
    from Suc.hyps(1)[OF n, of "Some e" s' "tr @ [c]"]
    obtain k where k: "k \<le> 3 - (i + 1)"
      "retry_loop (i + 1) (Some e) (logged c fn) (s', tr @ [c])
       = (fst (retry_loop (i + 1) (Some e) fn s'), snd (retry_loop (i + 1) (Some e) fn s'), (tr @ [c]) @ replicate k c)"
      by blast
    show ?thesis
      apply (rule exI[of _ "Suc k"])
      using i3 k e f
      apply (subst retry_loop.simps)
      apply (subst (2) retry_loop.simps)
      apply (subst (3) retry_loop.simps)
      apply (simp add: logged_def replicate_app_Cons_same del: retry_loop.simps)
      done
  next
    case False
    show ?thesis
      apply (rule exI[of _ 1])
      using i3 f False
      apply (subst retry_loop.simps)
      apply (subst (2) retry_loop.simps)
      apply (subst (3) retry_loop.simps)
      apply (cases r)
      apply (auto simp add: logged_def simp del: retry_loop.simps)
      done
  qed
qed

lemma retry_loop_recorded:
  "i < 3 \<Longrightarrow> \<exists>xs. xs \<noteq> [] \<and> length xs \<le> 3 - i
     \<and> retry_loop i err (recorded fn) (s, rs)
       = (fst (retry_loop i err fn s), snd (retry_loop i err fn s), rs @ xs)
     \<and> fst (retry_loop i err fn s) = last xs
     \<and> list_all is_retryable (butlast xs)
     \<and> (length xs < 3 - i \<longrightarrow> \<not> is_retryable (last xs))"
proof (induction "3 - i" arbitrary: i err s rs)
  case 0
  then show ?case by simp
next
  case (Suc n)
  then have i3: "i < 3" and n: "n = 3 - (i + 1)" by simp_all
  obtain r s' where f: "fn s = (r, s')" by (cases "fn s")
  show ?case
  proof (cases "is_retryable r \<and> i + 1 < 3")
    case True
    then obtain e where e: "r = Some e" "retryable e"
      by (auto simp: is_retryable_def split: option.splits)
    from True have i4: "i + 1 < 3" by simp
    from Suc.hyps(1)[OF n i4, of "Some e" s' "rs @ [r]"]
    obtain xs where xs: "xs \<noteq> []" "length xs \<le> 3 - (i + 1)"
      "retry_loop (i + 1) (Some e) (recorded fn) (s', rs @ [r])
       = (fst (retry_loop (i + 1) (Some e) fn s'), snd (retry_loop (i + 1) (Some e) fn s'), (rs @ [r]) @ xs)"
      "fst (retry_loop (i + 1) (Some e) fn s') = last xs"
      "list_all is_retryable (butlast xs)"
      "length xs < 3 - (i + 1) \<longrightarrow> \<not> is_retryable (last xs)"
      by blast
    have L: "retry_loop i err fn s = retry_loop (i + 1) (Some e) fn s'"
      using i3 e f by (subst retry_loop.simps) simp
    have R: "retry_loop i err (recorded fn) (s, rs)
             = retry_loop (i + 1) (Some e) (recorded fn) (s', rs @ [r])"
      using i3 e f by (subst retry_loop.simps) (simp add: recorded_def)
    show ?thesis
      apply (rule exI[of _ "r # xs"])
      using xs True i3 unfolding L R
      apply (auto simp: )
      done
  next
    case False
    have L: "retry_loop i err fn s = (r, s')"
    proof (cases "is_retryable r")
      case True
      with False have "i = 2" using i3 by simp
      then show ?thesis using f True
        by (subst retry_loop.simps, subst retry_loop.simps)
           (auto simp: is_retryable_def split: option.splits)
    next
      case False
      then show ?thesis using f i3
        by (subst retry_loop.simps) (auto simp: is_retryable_def split: option.splits)
    qed
    have R: "retry_loop i err (recorded fn) (s, rs) = (r, s', rs @ [r])"
    proof (cases "is_retryable r")
      case True
      with False have "i = 2" using i3 by simp
      then show ?thesis using f True
        by (subst retry_loop.simps, subst retry_loop.simps)
           (auto simp: is_retryable_def recorded_def split: option.splits)
    next
      case False
      then show ?thesis using f i3
        by (subst retry_loop.simps) (auto simp: is_retryable_def recorded_def split: option.splits)
    qed
    show ?thesis
      apply (rule exI[of _ "[r]"])
      using False i3 unfolding L R
      apply auto
      done
  qed
qed

lemma retry_logged:
  "\<exists>k. 1 \<le> k \<and> k \<le> 3
     \<and> retry (logged c fn) (s, tr) = (fst (retry fn s), snd (retry fn s), tr @ replicate k c)"
  using retry_loop_logged[of 0 None c fn s tr] by (auto simp: retry_def)

lemma retry_once:
  assumes "\<And>e. fst (fn s) = Some e \<Longrightarrow> \<not> retryable e"
  shows "retry fn s = fn s"
  using assms unfolding retry_def
  by (subst retry_loop.simps) (auto split: prod.splits option.splits)

lemma unwrap_all_length: "unwrap_all U ms = Inr xs \<Longrightarrow> length xs = length ms"
  by (induction ms arbitrary: xs) (auto split: sum.splits)

lemma deleteBatch_traced:
  "\<exists>k xs. k \<le> 3 \<and> length xs = length msgs
     \<and> deleteBatch U (traced_Queue Q) msgs (s, tr)
       = (fst (deleteBatch U Q msgs s), snd (deleteBatch U Q msgs s),
          tr @ replicate k (CDeleteReservedMessages xs))"
proof (cases "msgs = [] \<or> (\<exists>e. unwrap_all U msgs = Inl e)")
  case True
  then show ?thesis
    by (intro exI[of _ 0] exI[of _ "replicate (length msgs) undefined"])
       (auto simp: deleteBatch_def)
next
  case False
  then obtain xs where xs: "unwrap_all U msgs = Inr xs" and ne: "msgs \<noteq> []"
    by (cases "unwrap_all U msgs") auto
  from retry_logged[of "CDeleteReservedMessages xs" "DeleteReservedMessages (q Q) xs" s tr]
  obtain k where k: "1 \<le> k" "k \<le> 3"
    "retry (logged (CDeleteReservedMessages xs) (DeleteReservedMessages (q Q) xs)) (s, tr)
     = (fst (retry (DeleteReservedMessages (q Q) xs) s),
        snd (retry (DeleteReservedMessages (q Q) xs) s),
        tr @ replicate k (CDeleteReservedMessages xs))"
    by blast
  show ?thesis
    apply (intro exI[of _ k] exI[of _ xs])
    using k xs ne unwrap_all_length[OF xs]
    apply (simp add: deleteBatch_def traced_Queue_def traced_def)
    done
qed

lemma deleteBatch_within:
  assumes "length msgs \<le> 10" "calls_within 10 tr"
  shows "calls_within 10 (snd (snd (deleteBatch U (traced_Queue Q) msgs (s, tr))))"
proof -
  from deleteBatch_traced[of msgs U Q s tr]
  obtain k xs where "length xs = length msgs"
    "deleteBatch U (traced_Queue Q) msgs (s, tr)
       = (fst (deleteBatch U Q msgs s), snd (deleteBatch U Q msgs s),
          tr @ replicate k (CDeleteReservedMessages xs))"
    by blast
  then show ?thesis using assms by (auto simp add: calls_within_def list_all_iff)
qed

lemma step_within:
  assumes "length (batch b) < 10" "calls_within 10 tr"
    "Batcher_step splitDeleteBatch (deleteBatch U (traced_Queue Q)) e (b, s, tr) = (b', s', tr')"
  shows "length (batch b') < 10 \<and> calls_within 10 tr'"
proof (cases e)
  case (EAdd m)
  show ?thesis
  proof (cases "sync b \<or> length (batch b) = 9")
    case True
    have "length (batch b @ [m]) \<le> 10" using assms(1) by simp
    from deleteBatch_within[OF this assms(2), of U Q s]
    show ?thesis using assms True EAdd
      by (auto simp: Batcher_Add_def splitDeleteBatch_def messagesLimit_def Let_def split: if_splits prod.splits)
  next
    case False
    then show ?thesis using assms EAdd
      by (auto simp: Batcher_Add_def splitDeleteBatch_def messagesLimit_def Let_def split: if_splits)
  qed
next
  case ETimeout
  have "length (batch b) \<le> 10" using assms(1) by simp
  from deleteBatch_within[OF this assms(2), of U Q s]
  show ?thesis using assms ETimeout
    by (auto simp: Batcher_Timeout_def split: if_splits prod.splits)
next
  case (ESetSync v)
  have "length (batch b) \<le> 10" using assms(1) by simp
  from deleteBatch_within[OF this assms(2), of U Q s]
  show ?thesis using assms ESetSync
    by (auto simp: Batcher_SetSync_def split: if_splits prod.splits)
qed

lemma run_within:
  assumes "length (batch b) < 10" "calls_within 10 tr"
  shows "calls_within 10 (snd (snd (delBatcher_run U (traced_Queue Q) evs (b, s, tr))))"
  using assms unfolding delBatcher_run_def
proof (induction evs arbitrary: b s tr)
  case Nil
  then show ?case by simp
next
  case (Cons e evs)
  obtain b' s' tr' where st:
    "Batcher_step splitDeleteBatch (deleteBatch U (traced_Queue Q)) e (b, s, tr) = (b', s', tr')"
    by (metis prod_cases3)
  from step_within[OF Cons.prems st] Cons.IH[of b' tr' s'] st
  show ?case by simp
qed

lemma run_append:
  "Batcher_run S H (xs @ ys) bw = Batcher_run S H ys (Batcher_run S H xs bw)"
  by (induction xs arbitrary: bw) auto

lemma run_adds_below:
  assumes "length (batch b) + length ms < 10" "\<not> sync b"
  shows "Batcher_run splitDeleteBatch H (map EAdd ms) (b, w) = (b\<lparr>batch := batch b @ ms\<rparr>, w)"
  using assms
proof (induction ms arbitrary: b)
  case Nil
  then show ?case by simp
next
  case (Cons m ms)
  have "Batcher_step splitDeleteBatch H (EAdd m) (b, w) = (b\<lparr>batch := batch b @ [m]\<rparr>, w)"
    using Cons.prems by (simp add: Batcher_Add_def splitDeleteBatch_def messagesLimit_def)
  then show ?case using Cons.IH[of "b\<lparr>batch := batch b @ [m]\<rparr>"] Cons.prems by simp
qed

lemma deleteBatch_unwrapped:
  assumes "unwrap_all U msgs = Inr xs" "msgs \<noteq> []"
  shows "deleteBatch U (traced_Queue Q) msgs w
         = retry (logged (CDeleteReservedMessages xs) (DeleteReservedMessages (q Q) xs)) w"
  using assms by (simp add: deleteBatch_def traced_Queue_def traced_def)

lemma retry_logged_once:
  assumes "\<not> is_retryable (fst (fn s))"
  shows "retry (logged c fn) (s, tr) = (fst (fn s), snd (fn s), tr @ [c])"
proof -
  have "\<And>e. fst (logged c fn (s, tr)) = Some e \<Longrightarrow> \<not> retryable e"
  proof -
    fix e assume "fst (logged c fn (s, tr)) = Some e"
    then have "fst (fn s) = Some e" by (simp add: logged_def split: prod.splits)
    with assms show "\<not> retryable e" by (simp add: is_retryable_def)
  qed
  then have "retry (logged c fn) (s, tr) = logged c fn (s, tr)"
    by (rule retry_once)
  then show ?thesis by (simp add: logged_def split: prod.splits)
qed

lemma scenario_run:
  assumes len: "length ms = 15"
  shows "Batcher_run splitDeleteBatch H (map EAdd ms) (NewBatcher, w)
           = (NewBatcher\<lparr>batch := drop 10 ms\<rparr>, snd (H (take 10 ms) w))"
    and "Batcher_run splitDeleteBatch H (map EAdd ms @ [ETimeout]) (NewBatcher, w)
           = (NewBatcher, snd (H (drop 10 ms) (snd (H (take 10 ms) w))))"
proof -
  let ?w1 = "snd (H (take 10 ms) w)"
  have n9: "9 < length ms" using len by simp
  have t10: "take 9 ms @ [ms ! 9] = take 10 ms"
    using take_Suc_conv_app_nth[OF n9] by simp
  have split: "ms = take 9 ms @ [ms ! 9] @ drop 10 ms"
    using Cons_nth_drop_Suc[OF n9] append_take_drop_id[of 9 ms] by simp
  have a: "Batcher_run splitDeleteBatch H (map EAdd (take 9 ms)) (NewBatcher, w)
           = (NewBatcher\<lparr>batch := take 9 ms\<rparr>, w)"
    using run_adds_below[of NewBatcher "take 9 ms" H w] len by (simp add: NewBatcher_def)
  have b: "Batcher_Add splitDeleteBatch H (ms ! 9) (NewBatcher\<lparr>batch := take 9 ms\<rparr>, w)
           = (NewBatcher, ?w1)"
    using len by (auto simp add: Batcher_Add_def splitDeleteBatch_def messagesLimit_def t10 NewBatcher_def)
  have c: "Batcher_run splitDeleteBatch H (map EAdd (drop 10 ms)) (NewBatcher, ?w1)
           = (NewBatcher\<lparr>batch := drop 10 ms\<rparr>, ?w1)"
    using run_adds_below[of NewBatcher "drop 10 ms" H ?w1] len by (simp add: NewBatcher_def)
  have "map EAdd ms = map EAdd (take 9 ms) @ [EAdd (ms ! 9)] @ map EAdd (drop 10 ms)"
    by (subst split) simp
  then show 1: "Batcher_run splitDeleteBatch H (map EAdd ms) (NewBatcher, w)
           = (NewBatcher\<lparr>batch := drop 10 ms\<rparr>, ?w1)"
    by (simp add: run_append a b c)
  have "drop 10 ms \<noteq> []" using len by simp
  then show "Batcher_run splitDeleteBatch H (map EAdd ms @ [ETimeout]) (NewBatcher, w)
           = (NewBatcher, snd (H (drop 10 ms) ?w1))"
    using 1 by (simp add: run_append Batcher_Timeout_def NewBatcher_def)
qed

lemma unwrap_all_Inr: "unwrap_all Inr ms = Inr (map to_mq ms)"
  by (induction ms) simp_all

lemma sdiv_nonneg:
  fixes d S :: int
  assumes "0 < S" "0 \<le> d"
  shows "d sdiv S = d div S"
  using assms by (simp add: signed_divide_int_def sgn_if)

lemma sdiv_neg:
  fixes d S :: int
  assumes "0 < S" "d < 0"
  shows "d sdiv S = - ((- d) div S)"
  using assms by (simp add: signed_divide_int_def sgn_if)

lemma sdiv_truncates:
  fixes d S :: int
  assumes S: "0 < S"
  shows "\<bar>d\<bar> < S \<longrightarrow> d sdiv S = 0"
    and "0 \<le> d \<longrightarrow> (d sdiv S) * S \<le> d \<and> d < (d sdiv S + 1) * S"
    and "\<bar>d - (d sdiv S) * S\<bar> < S"
    and "\<bar>(d sdiv S) * S\<bar> \<le> \<bar>d\<bar>"
proof -
  have m: "\<And>e::int. 0 \<le> e \<Longrightarrow> e - (e div S) * S = e mod S"
    by (simp add: minus_div_mult_eq_mod)
  have b: "\<And>e::int. 0 \<le> e mod S \<and> e mod S < S"
    using S by simp
  have le: "\<And>e::int. 0 \<le> e \<Longrightarrow> 0 \<le> (e div S) * S \<and> (e div S) * S \<le> e"
  proof -
    fix e :: int assume e: "0 \<le> e"
    have "0 \<le> e div S" using e S by (simp add: pos_imp_zdiv_nonneg_iff)
    then have "0 \<le> (e div S) * S" using S by simp
    moreover have "(e div S) * S \<le> e" using m[OF e] b[of e] by linarith
    ultimately show "0 \<le> (e div S) * S \<and> (e div S) * S \<le> e" by simp
  qed
  show "\<bar>d\<bar> < S \<longrightarrow> d sdiv S = 0"
  proof (cases "0 \<le> d")
    case True
    then show ?thesis using S by (simp add: sdiv_nonneg)
  next
    case False
    then have "d < 0" by simp
    then show ?thesis using S by (simp add: sdiv_neg)
  qed
  show "0 \<le> d \<longrightarrow> (d sdiv S) * S \<le> d \<and> d < (d sdiv S + 1) * S"
  proof
    assume d: "0 \<le> d"
    have "(d div S + 1) * S = (d div S) * S + S" by (simp add: algebra_simps)
    then have "d < (d div S + 1) * S" using m[OF d] b[of d] by linarith
    then show "(d sdiv S) * S \<le> d \<and> d < (d sdiv S + 1) * S"
      using le[OF d] S d by (simp add: sdiv_nonneg)
  qed
  show "\<bar>d - (d sdiv S) * S\<bar> < S"
  proof (cases "0 \<le> d")
    case True
    then show ?thesis using m[OF True] b[of d] S by (simp add: sdiv_nonneg)
  next
    case False
    then have n: "d < 0" and e: "0 \<le> - d" by simp_all
    have "d - (d sdiv S) * S = - ((- d) - ((- d) div S) * S)"
      using n S by (simp add: sdiv_neg algebra_simps)
    then show ?thesis using m[OF e] b[of "- d"] by simp
  qed
  show "\<bar>(d sdiv S) * S\<bar> \<le> \<bar>d\<bar>"
  proof (cases "0 \<le> d")
    case True
    then show ?thesis using le[OF True] S by (simp add: sdiv_nonneg)
  next
    case False
    then have n: "d < 0" and e: "0 \<le> - d" by simp_all
    have "(d sdiv S) * S = - (((- d) div S) * S)"
      using n S by (simp add: sdiv_neg)
    then show ?thesis using le[OF e] n by simp
  qed
qed

section \<open>Theorems\<close>

text \<open>
  C1, as amended. With the delete-batch cap of 10 and 15 completed messages handed to the
  delete batcher one after the other, followed by the timeout, exactly two flushes reach
  \<open>deleteBatch\<close>: the first 10 messages when the tenth arrives, the remaining 5 at the
  timeout. When the messages unwrap, each flush makes between one and three
  \<open>DeleteReservedMessages\<close> calls, all carrying that flush's messages (\<open>retry\<close> repeats a
  call answered with a status of 500 or more), so between two and six calls reach the
  backend, and exactly two (one of 10, one of 5) when neither first answer has a status of
  500 or more. Whatever the events, the messages and the backend, no
  \<open>DeleteReservedMessages\<close> call carries more than 10 messages.
\<close>

theorem C1_delete_batches:
  "calls_within 10 (snd (snd (delBatcher_run U (traced_Queue Q) evs (NewBatcher, s, []))))
   \<and> (length ms = 15 \<longrightarrow>
        snd (snd (Batcher_run splitDeleteBatch (\<lambda>b. logged b (deleteBatch U Q b))
                    (map EAdd ms) (NewBatcher, s, [])))
          = [take 10 ms]
      \<and> snd (snd (Batcher_run splitDeleteBatch (\<lambda>b. logged b (deleteBatch U Q b))
                    (map EAdd ms @ [ETimeout]) (NewBatcher, s, [])))
          = [take 10 ms, drop 10 ms])
   \<and> (length ms = 15 \<and> unwrap_all U (take 10 ms) = Inr xs \<and> unwrap_all U (drop 10 ms) = Inr ys
      \<longrightarrow>
        length xs = 10 \<and> length ys = 5
      \<and> (\<exists>k1 k2. 1 \<le> k1 \<and> k1 \<le> 3 \<and> 1 \<le> k2 \<and> k2 \<le> 3
            \<and> snd (snd (delBatcher_run U (traced_Queue Q) (map EAdd ms) (NewBatcher, s, [])))
              = replicate k1 (CDeleteReservedMessages xs)
            \<and> snd (snd (delBatcher_run U (traced_Queue Q) (map EAdd ms @ [ETimeout])
                          (NewBatcher, s, [])))
              = replicate k1 (CDeleteReservedMessages xs) @ replicate k2 (CDeleteReservedMessages ys))
      \<and> (\<not> is_retryable (fst (DeleteReservedMessages (q Q) xs s))
         \<and> \<not> is_retryable (fst (DeleteReservedMessages (q Q) ys
                                   (snd (DeleteReservedMessages (q Q) xs s))))
         \<longrightarrow>
           snd (snd (delBatcher_run U (traced_Queue Q) (map EAdd ms) (NewBatcher, s, [])))
             = [CDeleteReservedMessages xs]
         \<and> snd (snd (delBatcher_run U (traced_Queue Q) (map EAdd ms @ [ETimeout])
                        (NewBatcher, s, [])))
             = [CDeleteReservedMessages xs, CDeleteReservedMessages ys]))"
proof (intro conjI impI)
  show "calls_within 10 (snd (snd (delBatcher_run U (traced_Queue Q) evs (NewBatcher, s, []))))"
    by (rule run_within) (simp_all add: NewBatcher_def calls_within_def)
next
  assume len: "length ms = 15"
  let ?H = "\<lambda>b. logged b (deleteBatch U Q b)"
  have h: "\<And>b t tr. snd (snd (?H b (t, tr))) = tr @ [b]"
    by (simp add: logged_def split: prod.splits)
  show "snd (snd (Batcher_run splitDeleteBatch ?H (map EAdd ms) (NewBatcher, s, []))) = [take 10 ms]"
    using h[of "take 10 ms" s "[]"] by (simp add: scenario_run(1)[OF len])
  have "snd (snd (?H (drop 10 ms) (snd (?H (take 10 ms) (s, []))))) = [take 10 ms, drop 10 ms]"
    using h[of "take 10 ms" s "[]"] h[of "drop 10 ms" "fst (snd (?H (take 10 ms) (s, [])))" "[take 10 ms]"]
    by (metis append_Cons append_Nil prod.collapse)
  then show "snd (snd (Batcher_run splitDeleteBatch ?H (map EAdd ms @ [ETimeout]) (NewBatcher, s, [])))
        = [take 10 ms, drop 10 ms]"
    by (simp add: scenario_run(2)[OF len])
next
  assume a: "length ms = 15 \<and> unwrap_all U (take 10 ms) = Inr xs \<and> unwrap_all U (drop 10 ms) = Inr ys"
  then show "length xs = 10" using unwrap_all_length[of U "take 10 ms" xs] by simp
  from a show "length ys = 5" using unwrap_all_length[of U "drop 10 ms" ys] by simp
next
  assume a: "length ms = 15 \<and> unwrap_all U (take 10 ms) = Inr xs \<and> unwrap_all U (drop 10 ms) = Inr ys"
  then have len: "length ms = 15" and ux: "unwrap_all U (take 10 ms) = Inr xs"
    and uy: "unwrap_all U (drop 10 ms) = Inr ys" by simp_all
  have ne: "take 10 ms \<noteq> []" "drop 10 ms \<noteq> []" using len by auto
  let ?cx = "CDeleteReservedMessages xs" and ?cy = "CDeleteReservedMessages ys"
  let ?fx = "DeleteReservedMessages (q Q) xs" and ?fy = "DeleteReservedMessages (q Q) ys"
  from retry_logged[of ?cx ?fx s "[]"]
  obtain k1 where k1: "1 \<le> k1" "k1 \<le> 3"
    "retry (logged ?cx ?fx) (s, []) = (fst (retry ?fx s), snd (retry ?fx s), replicate k1 ?cx)"
    by auto
  from retry_logged[of ?cy ?fy "snd (retry ?fx s)" "replicate k1 ?cx"]
  obtain k2 where k2: "1 \<le> k2" "k2 \<le> 3"
    "retry (logged ?cy ?fy) (snd (retry ?fx s), replicate k1 ?cx)
     = (fst (retry ?fy (snd (retry ?fx s))), snd (retry ?fy (snd (retry ?fx s))),
        replicate k1 ?cx @ replicate k2 ?cy)"
    by auto
  have r1: "snd (snd (delBatcher_run U (traced_Queue Q) (map EAdd ms) (NewBatcher, s, [])))
            = replicate k1 ?cx"
    unfolding delBatcher_run_def scenario_run(1)[OF len] deleteBatch_unwrapped[OF ux ne(1)]
    by (simp add: k1(3))
  have r2: "snd (snd (delBatcher_run U (traced_Queue Q) (map EAdd ms @ [ETimeout]) (NewBatcher, s, [])))
            = replicate k1 ?cx @ replicate k2 ?cy"
    unfolding delBatcher_run_def scenario_run(2)[OF len] deleteBatch_unwrapped[OF ux ne(1)]
      deleteBatch_unwrapped[OF uy ne(2)]
    by (simp add: k1(3) k2(3))
  from k1 k2 r1 r2
  show "\<exists>k1 k2. 1 \<le> k1 \<and> k1 \<le> 3 \<and> 1 \<le> k2 \<and> k2 \<le> 3
            \<and> snd (snd (delBatcher_run U (traced_Queue Q) (map EAdd ms) (NewBatcher, s, [])))
              = replicate k1 ?cx
            \<and> snd (snd (delBatcher_run U (traced_Queue Q) (map EAdd ms @ [ETimeout])
                          (NewBatcher, s, [])))
              = replicate k1 ?cx @ replicate k2 ?cy"
    by blast
next
  assume a: "length ms = 15 \<and> unwrap_all U (take 10 ms) = Inr xs \<and> unwrap_all U (drop 10 ms) = Inr ys"
    and b: "\<not> is_retryable (fst (DeleteReservedMessages (q Q) xs s))
         \<and> \<not> is_retryable (fst (DeleteReservedMessages (q Q) ys
                                   (snd (DeleteReservedMessages (q Q) xs s))))"
  from a have len: "length ms = 15" and ux: "unwrap_all U (take 10 ms) = Inr xs"
    and uy: "unwrap_all U (drop 10 ms) = Inr ys" by simp_all
  have ne: "take 10 ms \<noteq> []" "drop 10 ms \<noteq> []" using len by auto
  let ?s1 = "snd (DeleteReservedMessages (q Q) xs s)"
  have d1: "deleteBatch U (traced_Queue Q) (take 10 ms) (s, [])
            = (fst (DeleteReservedMessages (q Q) xs s), ?s1, [CDeleteReservedMessages xs])"
    unfolding deleteBatch_unwrapped[OF ux ne(1)]
    using b retry_logged_once[where fn = "DeleteReservedMessages (q Q) xs" and s = s
        and c = "CDeleteReservedMessages xs" and tr = "[]"] by simp
  have d2: "deleteBatch U (traced_Queue Q) (drop 10 ms) (?s1, [CDeleteReservedMessages xs])
            = (fst (DeleteReservedMessages (q Q) ys ?s1), snd (DeleteReservedMessages (q Q) ys ?s1),
               [CDeleteReservedMessages xs, CDeleteReservedMessages ys])"
    unfolding deleteBatch_unwrapped[OF uy ne(2)]
    using b retry_logged_once[where fn = "DeleteReservedMessages (q Q) ys" and s = ?s1
        and c = "CDeleteReservedMessages ys" and tr = "[CDeleteReservedMessages xs]"]
    by simp
  show "snd (snd (delBatcher_run U (traced_Queue Q) (map EAdd ms) (NewBatcher, s, [])))
             = [CDeleteReservedMessages xs]"
    unfolding delBatcher_run_def scenario_run(1)[OF len] by (simp add: d1)
  show "snd (snd (delBatcher_run U (traced_Queue Q) (map EAdd ms @ [ETimeout]) (NewBatcher, s, [])))
             = [CDeleteReservedMessages xs, CDeleteReservedMessages ys]"
    unfolding delBatcher_run_def scenario_run(2)[OF len] by (simp add: d1 d2)
qed

theorem C1_delete_batches_witness:
  "length demo_msgs = 15
   \<and> snd (snd (delBatcher_run Inr (traced_Queue scripted_Queue) (map EAdd demo_msgs @ [ETimeout])
                 (NewBatcher, [], [])))
     = [CDeleteReservedMessages (map to_mq (take 10 demo_msgs)),
        CDeleteReservedMessages (map to_mq (drop 10 demo_msgs))]"
  using C1_delete_batches[of Inr scripted_Queue "[]" "[]" demo_msgs "map to_mq (take 10 demo_msgs)"
      "map to_mq (drop 10 demo_msgs)"]
  by (simp add: unwrap_all_Inr demo_msgs_def scripted_Queue_def scripted_mq_def scripted_def
      is_retryable_def)

text \<open>
  The claim as it was stated fails at this input: the backend answers the first bulk
  delete with a 503, \<open>retry\<close> repeats it, and three calls (of 10, 10 and 5 messages) reach
  the backend.
\<close>

theorem C1_delete_batches_counterexample:
  "length demo_msgs = 15
   \<and> snd (snd (delBatcher_run Inr (traced_Queue scripted_Queue) (map EAdd demo_msgs @ [ETimeout])
                 (NewBatcher, [Some (HTTPResponseError 503 ''Service Unavailable'')], [])))
     = [CDeleteReservedMessages (map to_mq (take 10 demo_msgs)),
        CDeleteReservedMessages (map to_mq (take 10 demo_msgs)),
        CDeleteReservedMessages (map to_mq (drop 10 demo_msgs))]"
proof -
  have len: "length demo_msgs = 15" by (simp add: demo_msgs_def)
  have ne: "take 10 demo_msgs \<noteq> []" "drop 10 demo_msgs \<noteq> []" using len by auto
  show ?thesis
    unfolding delBatcher_run_def scenario_run(2)[OF len]
      deleteBatch_unwrapped[OF unwrap_all_Inr ne(1)] deleteBatch_unwrapped[OF unwrap_all_Inr ne(2)]
    using len
    by (simp add: retry_def retryable_def logged_def scripted_Queue_def scripted_mq_def scripted_def)
qed

text \<open>
  C2, as amended. For every operation \<open>fn\<close>, \<open>retry\<close> invokes \<open>fn\<close> at least once and
  at most 3 times and returns the result of the last attempt; every attempt but the last
  failed with an HTTP response error of status 500 or more; when fewer than 3 attempts
  were made the last one did not (it succeeded, so nil is returned as soon as an attempt
  succeeds, or it failed with another error). An attempt's result makes \<open>retry\<close> go on
  exactly when it is an HTTP response error of status 500 or more.
\<close>

theorem C2_retry_attempts:
  "(\<exists>rs. retry (recorded fn) (s, []) = (fst (retry fn s), snd (retry fn s), rs)
     \<and> 1 \<le> length rs \<and> length rs \<le> 3
     \<and> fst (retry fn s) = last rs
     \<and> list_all is_retryable (butlast rs)
     \<and> (length rs < 3 \<longrightarrow> \<not> is_retryable (last rs)))
   \<and> (is_retryable r \<longleftrightarrow> (\<exists>c m. r = Some (HTTPResponseError c m) \<and> 500 \<le> c))"
proof -
  have char: "is_retryable r \<longleftrightarrow> (\<exists>c m. r = Some (HTTPResponseError c m) \<and> 500 \<le> c)"
  proof (cases r)
    case None
    then show ?thesis by (simp add: is_retryable_def)
  next
    case (Some e)
    then show ?thesis by (cases e) (simp_all add: is_retryable_def retryable_def)
  qed
  from retry_loop_recorded[of 0 None fn s "[]"]
  obtain xs where xs: "xs \<noteq> []" "length xs \<le> 3"
     "retry_loop 0 None (recorded fn) (s, []) = (fst (retry_loop 0 None fn s), snd (retry_loop 0 None fn s), xs)"
     "fst (retry_loop 0 None fn s) = last xs"
     "list_all is_retryable (butlast xs)"
     "length xs < 3 \<longrightarrow> \<not> is_retryable (last xs)"
    by auto
  have "retry (recorded fn) (s, []) = (fst (retry fn s), snd (retry fn s), xs)
     \<and> 1 \<le> length xs \<and> length xs \<le> 3
     \<and> fst (retry fn s) = last xs
     \<and> list_all is_retryable (butlast xs)
     \<and> (length xs < 3 \<longrightarrow> \<not> is_retryable (last xs))"
    using xs by (cases xs) (auto simp: retry_def)
  then show ?thesis using char by blast
qed

theorem C2_retry_attempts_witness:
  "length [Some (HTTPResponseError 503 ''unavailable''), None] < 3
   \<and> retry (recorded scripted) ([Some (HTTPResponseError 503 ''unavailable''), None], [])
     = (None, [], [Some (HTTPResponseError 503 ''unavailable''), None])"
  using C2_retry_attempts[of scripted "[Some (HTTPResponseError 503 ''unavailable''), None]"]
  by (simp add: retry_def recorded_def scripted_def retryable_def)

text \<open>The claim as it was stated fails at this input.\<close>

theorem C2_retry_counterexample:
  "snd (snd (retry (recorded (always (HTTPResponseError 600 ''status 600''))) ((), [])))
     = [Some (HTTPResponseError 600 ''status 600''), Some (HTTPResponseError 600 ''status 600''),
        Some (HTTPResponseError 600 ''status 600'')]
   \<and> \<not> spec_BackendTransient (HTTPResponseError 600 ''status 600'')
   \<and> snd (snd (retry (recorded (always NetworkTimeout)) ((), []))) = [Some NetworkTimeout]
   \<and> spec_BackendTransient NetworkTimeout"
  by (simp add: retry_def recorded_def always_def retryable_def spec_BackendTransient_def)

text \<open>
  C3, as amended. When the long poll of \<open>ReserveN\<close> fails with an HTTP 404 whose text
  contains "Queue not found" (and not "Message not found"), \<open>ReserveN\<close> asks the backend
  once to create the queue, ignores the result, and returns the 404 error to its caller
  without polling again.
\<close>

theorem C3_ReserveN_queue_not_found:
  assumes "LongPoll (q Q) (if n > 100 then 100 else n)
             (ReservationTimeout (opt Q) sdiv Second) (WaitTimeout (opt Q) sdiv Second) False s
           = (Inl (HTTPResponseError 404 m), s1)"
      and "sublist ''Queue not found'' m"
      and "\<not> sublist ''Message not found'' m"
  shows "ReserveN (traced_Queue Q) n (s, tr)
         = (Inl (HTTPResponseError 404 m), snd (createQueue Q s1),
            tr @ [CLongPoll (if n > 100 then 100 else n)
                    (ReservationTimeout (opt Q) sdiv Second) (WaitTimeout (opt Q) sdiv Second) False,
                  CConfigCreateQueue (mq_Name (q Q))])"
  using assms
  by (simp add: ReserveN_def traced_Queue_def traced_def logged_def createQueue_def
      split: prod.splits)

theorem C3_ReserveN_queue_not_found_witness:
  "ReserveN (traced_Queue scripted_Queue) 10 ([Some (HTTPResponseError 404 ''Queue not found'')], [])
   = (Inl (HTTPResponseError 404 ''Queue not found''), [],
      [CLongPoll 10 300 10 False, CConfigCreateQueue ''jobs''])"
  using C3_ReserveN_queue_not_found[of scripted_Queue 10 "[Some (HTTPResponseError 404 ''Queue not found'')]"
      "''Queue not found''" "[]" "[]"]
  by (simp add: scripted_Queue_def scripted_mq_def scripted_poll_def scripted_def demo_Options_def
      createQueue_def Second_def signed_divide_int_def sublist_code)

text \<open>The claim as it was stated fails at this input.\<close>

theorem C3_ReserveN_counterexample:
  "fst (ReserveN scripted_Queue 1 [Some (HTTPResponseError 404 ''Queue not found'')])
     = Inl (HTTPResponseError 404 ''Queue not found'')
   \<and> snd (snd (ReserveN (traced_Queue scripted_Queue) 1
                 ([Some (HTTPResponseError 404 ''Queue not found'')], [])))
     = [CLongPoll 1 300 10 False, CConfigCreateQueue ''jobs'']
   \<and> fst (LongPoll scripted_mq 1 300 10 False
            (snd (ReserveN scripted_Queue 1 [Some (HTTPResponseError 404 ''Queue not found'')])))
     = Inr []"
  by (simp add: ReserveN_def traced_Queue_def traced_def logged_def
      scripted_Queue_def scripted_mq_def scripted_poll_def scripted_def demo_Options_def
      createQueue_def Second_def signed_divide_int_def sublist_code)

text \<open>
  C4. For every list handed to the delete-batch splitter, flush-now followed by hold-back
  is the input; a list of fewer than 10 messages is held back whole and nothing is
  flushed; a list of 10 or more messages is flushed whole and nothing is held back.
\<close>

theorem C4_splitDeleteBatch_partition:
  "fst (splitDeleteBatch msgs) @ snd (splitDeleteBatch msgs) = msgs
   \<and> (if length msgs < 10
       then splitDeleteBatch msgs = ([], msgs)
       else splitDeleteBatch msgs = (msgs, []))"
  by (simp add: splitDeleteBatch_def messagesLimit_def)

text \<open>
  C5. For every message, \<open>Delete\<close> returns nil when the retried backend delete ends
  with nil or with an HTTP 404 response error, and returns the error it ends with in
  every other case; the backend is left as \<open>retry\<close> leaves it. In particular a 404 at
  the first attempt is swallowed at once.
\<close>

theorem C5_Delete_swallows_404:
  "(fst (retry (DeleteMessage (q Q) (Id msg) (ReservationId msg)) s) = None
      \<longrightarrow> fst (Delete Q msg s) = None)
   \<and> (\<forall>e. fst (retry (DeleteMessage (q Q) (Id msg) (ReservationId msg)) s) = Some e
      \<longrightarrow> fst (Delete Q msg s) = (if http_status e = Some 404 then None else Some e))
   \<and> snd (Delete Q msg s) = snd (retry (DeleteMessage (q Q) (Id msg) (ReservationId msg)) s)
   \<and> (\<forall>m. fst (DeleteMessage (q Q) (Id msg) (ReservationId msg) s) = Some (HTTPResponseError 404 m)
      \<longrightarrow> Delete Q msg s = (None, snd (DeleteMessage (q Q) (Id msg) (ReservationId msg) s)))"
proof -
  let ?D = "DeleteMessage (q Q) (Id msg) (ReservationId msg)"
  have "Delete Q msg s = (None, snd (?D s))" if "fst (?D s) = Some (HTTPResponseError 404 m)" for m
  proof -
    have "retry ?D s = ?D s"
      using that by (intro retry_once) (auto simp: retryable_def)
    then show ?thesis using that by (cases "?D s") (simp add: Delete_def)
  qed
  then show ?thesis
    by (auto simp: Delete_def split: prod.splits option.splits)
qed

theorem C5_Delete_swallows_404_witness:
  "Delete scripted_Queue (demo_msg 0) [Some (HTTPResponseError 404 ''Message not found'')]
     = (None, [])
   \<and> fst (Delete scripted_Queue (demo_msg 0) [Some (HTTPResponseError 403 ''Forbidden'')])
     = Some (HTTPResponseError 403 ''Forbidden'')"
  using C5_Delete_swallows_404[of scripted_Queue "demo_msg 0" "[Some (HTTPResponseError 404 ''Message not found'')]"]
    C5_Delete_swallows_404[of scripted_Queue "demo_msg 0" "[Some (HTTPResponseError 403 ''Forbidden'')]"]
  by (simp add: Delete_def retry_def retryable_def scripted_Queue_def scripted_mq_def scripted_def)

text \<open>
  C6. \<open>CloseTimeout\<close> stops the processor when one has been created, then switches the
  delete batcher to synchronous mode and closes the delete queue, whether or not
  stopping failed; it returns the error of stopping when there is one and else the
  result of closing the delete queue.
\<close>

theorem C6_CloseTimeout_first_error:
  "CloseTimeout p (\<lambda>pr t. logged (SStopTimeout t) (StopTimeout pr t))
      (\<lambda>v. logged (SSetSync v) (SetSync v))
      (\<lambda>t. logged (SDelQueueCloseTimeout t) (delQueue_CloseTimeout t)) timeout (w, tr)
   = (case p of
        None \<Rightarrow>
          (case delQueue_CloseTimeout timeout (snd (SetSync True w)) of
             (e2, w3) \<Rightarrow> (e2, w3, tr @ [SSetSync True, SDelQueueCloseTimeout timeout]))
      | Some pr \<Rightarrow>
          (case StopTimeout pr timeout w of
             (e1, w1) \<Rightarrow>
               (case delQueue_CloseTimeout timeout (snd (SetSync True w1)) of
                  (e2, w3) \<Rightarrow>
                    ((case e1 of Some e \<Rightarrow> Some e | None \<Rightarrow> e2), w3,
                     tr @ [SStopTimeout timeout, SSetSync True, SDelQueueCloseTimeout timeout]))))"
  by (auto simp: CloseTimeout_def logged_def first_error_def split: prod.splits option.splits)

text \<open>
  C7. When encoding the message's arguments fails, \<open>Add\<close> returns that error, the
  add-stage state is unchanged and \<open>addQueue.Add\<close> is not called. Otherwise the message's
  \<open>Compress\<close> flag is set from the queue options, the wrapped message is handed to
  \<open>addQueue.Add\<close>, and \<open>Add\<close> returns what that call returns.
\<close>

theorem C7_Add_codec_error:
  "(\<forall>err msg1. EncodeArgs msg = (Inl err, msg1)
      \<longrightarrow> Add EncodeArgs WrapMessage (\<lambda>m. logged m (addQueue_Add m)) options msg (a, tr)
          = (Some err, msg1, a, tr))
   \<and> (\<forall>body msg1. EncodeArgs msg = (Inr body, msg1)
      \<longrightarrow> Add EncodeArgs WrapMessage (\<lambda>m. logged m (addQueue_Add m)) options msg (a, tr)
          = (fst (addQueue_Add (WrapMessage (msg1\<lparr>Compress := opt_Compress options\<rparr>)) a),
             msg1\<lparr>Compress := opt_Compress options\<rparr>,
             snd (addQueue_Add (WrapMessage (msg1\<lparr>Compress := opt_Compress options\<rparr>)) a),
             tr @ [WrapMessage (msg1\<lparr>Compress := opt_Compress options\<rparr>)]))"
  by (auto simp: Add_def logged_def Let_def split: prod.splits)

theorem C7_Add_codec_error_witness:
  "Add demo_EncodeArgs demo_WrapMessage (\<lambda>m. logged m (demo_addQueue_Add m)) demo_Options
      (demo_msg 0) ([], [])
   = (Some (ErrorString ''msgqueue: codec error''), demo_msg 0, [], [])
   \<and> Add demo_EncodeArgs demo_WrapMessage (\<lambda>m. logged m (demo_addQueue_Add m)) demo_Options
      ((demo_msg 0)\<lparr>Body := ''args''\<rparr>) ([], [])
   = (None, (demo_msg 0)\<lparr>Body := ''args'', Compress := True\<rparr>,
      [(demo_msg 0)\<lparr>Body := ''wrapped:args'', Compress := True\<rparr>],
      [(demo_msg 0)\<lparr>Body := ''wrapped:args'', Compress := True\<rparr>])"
  using C7_Add_codec_error[of demo_EncodeArgs "demo_msg 0" demo_WrapMessage demo_addQueue_Add
      demo_Options "[]" "[]"]
    C7_Add_codec_error[of demo_EncodeArgs "(demo_msg 0)\<lparr>Body := ''args''\<rparr>" demo_WrapMessage
      demo_addQueue_Add demo_Options "[]" "[]"]
  by (simp add: demo_EncodeArgs_def demo_WrapMessage_def demo_addQueue_Add_def demo_Options_def
      demo_msg_def)

text \<open>
  C8. Handed an empty slice, \<open>deleteBatch\<close> returns a non-nil error and makes no
  backend call.
\<close>

theorem C8_deleteBatch_empty:
  "deleteBatch U (traced_Queue Q) [] (s, tr)
     = (Some (ErrorString ''ironmq: no messages to delete''), s, tr)
   \<and> fst (deleteBatch U Q [] s) \<noteq> None"
  by (simp add: deleteBatch_def)

text \<open>
  C9, as amended. For every requested count \<open>n\<close>, \<open>ReserveN\<close> makes one long poll, whose
  count is \<open>min n 100\<close> (followed at most by a queue creation). A successful \<open>ReserveN\<close>
  returns the messages of that poll's answer one for one, without truncating it (and no
  message when the poll failed). So it returns at most 100 messages when the answer holds
  no more messages than the poll asked for.
\<close>

theorem C9_ReserveN_at_most_100:
  "(\<exists>rest. snd (snd (ReserveN (traced_Queue Q) n (s, tr)))
             = tr @ CLongPoll (min n 100) (ReservationTimeout (opt Q) sdiv Second)
                      (WaitTimeout (opt Q) sdiv Second) False # rest
           \<and> (rest = [] \<or> rest = [CConfigCreateQueue (mq_Name (q Q))]))
   \<and> (\<forall>msgs. fst (ReserveN Q n s) = Inr msgs \<longrightarrow>
        (case fst (LongPoll (q Q) (min n 100) (ReservationTimeout (opt Q) sdiv Second)
                     (WaitTimeout (opt Q) sdiv Second) False s) of
           Inr ms \<Rightarrow> msgs = map from_mq ms
         | Inl e \<Rightarrow> msgs = [])
      \<and> ((case fst (LongPoll (q Q) (min n 100) (ReservationTimeout (opt Q) sdiv Second)
                     (WaitTimeout (opt Q) sdiv Second) False s) of
            Inr ms \<Rightarrow> int (length ms) \<le> max 0 (min n 100)
          | Inl e \<Rightarrow> True)
          \<longrightarrow> length msgs \<le> 100))"
proof -
  let ?n = "if n > 100 then 100 else n"
  let ?c = "CLongPoll ?n (ReservationTimeout (opt Q) sdiv Second)
              (WaitTimeout (opt Q) sdiv Second) False"
  let ?P = "LongPoll (q Q) ?n (ReservationTimeout (opt Q) sdiv Second)
              (WaitTimeout (opt Q) sdiv Second) False s"
  have n: "min n 100 = ?n" by simp
  obtain r s1 where P: "?P = (r, s1)" by (cases ?P)
  have A: "snd (snd (ReserveN (traced_Queue Q) n (s, tr))) = tr @ [?c]
        \<or> snd (snd (ReserveN (traced_Queue Q) n (s, tr))) = tr @ [?c, CConfigCreateQueue (mq_Name (q Q))]"
    using P
    by (cases r)
       (simp_all add: ReserveN_def traced_Queue_def traced_def logged_def createQueue_def
         Let_def split: prod.splits)
  have B: "(case fst ?P of Inr ms \<Rightarrow> msgs = map from_mq ms | Inl e \<Rightarrow> msgs = [])"
    if "fst (ReserveN Q n s) = Inr msgs" for msgs
    using that P by (cases r) (auto simp: ReserveN_def split: if_splits)
  have C: "length msgs \<le> 100"
    if "fst (ReserveN Q n s) = Inr msgs"
      and "(case fst ?P of Inr ms \<Rightarrow> int (length ms) \<le> max 0 ?n | Inl e \<Rightarrow> True)" for msgs
    using B[OF that(1)] that(2) P by (cases r) (auto split: if_splits)
  from A B C show ?thesis unfolding n by auto
qed

theorem C9_ReserveN_at_most_100_witness:
  "snd (snd (ReserveN (traced_Queue full_Queue) 250 ((), []))) = [CLongPoll 100 300 10 False]
   \<and> map_sum id length (fst (ReserveN full_Queue 250 ())) = Inr 100"
  using C9_ReserveN_at_most_100[of full_Queue 250 "()" "[]"]
  by (simp add: ReserveN_def traced_Queue_def traced_def logged_def full_Queue_def full_mq_def
      demo_Options_def Second_def signed_divide_int_def)

text \<open>
  The claim as it was stated fails at this input: asked for 250 messages, \<open>ReserveN\<close>
  polls for 100, the backend answers with 120, and all 120 are returned.
\<close>

theorem C9_ReserveN_counterexample:
  "snd (snd (ReserveN (traced_Queue flood_Queue) 250 ((), []))) = [CLongPoll 100 300 10 False]
   \<and> map_sum id length (fst (ReserveN flood_Queue 250 ())) = Inr 120"
  by (simp add: ReserveN_def traced_Queue_def traced_def logged_def flood_Queue_def flood_mq_def
      demo_Options_def Second_def signed_divide_int_def)

text \<open>
  C10. Every \<open>ReleaseMessage\<close> call of \<open>Release\<close> carries the message's delay divided
  by \<open>time.Second\<close> with truncation: a delay shorter than one second gives 0, and the
  fraction of a second of a longer delay is discarded.
\<close>

theorem C10_Release_whole_seconds:
  "(\<exists>k. 1 \<le> k \<and> k \<le> 3
        \<and> snd (snd (Release (traced_Queue Q) msg (s, tr)))
          = tr @ replicate k (CReleaseMessage (Id msg) (ReservationId msg) (Delay msg sdiv Second)))
   \<and> (\<bar>Delay msg\<bar> < Second \<longrightarrow> Delay msg sdiv Second = 0)
   \<and> (0 \<le> Delay msg \<longrightarrow>
        (Delay msg sdiv Second) * Second \<le> Delay msg
        \<and> Delay msg < (Delay msg sdiv Second + 1) * Second)
   \<and> \<bar>Delay msg - (Delay msg sdiv Second) * Second\<bar> < Second
   \<and> \<bar>(Delay msg sdiv Second) * Second\<bar> \<le> \<bar>Delay msg\<bar>"
proof -
  let ?d = "Delay msg"
  have S: "0 < Second" by (simp add: Second_def)
  from retry_logged[of "CReleaseMessage (Id msg) (ReservationId msg) (?d sdiv Second)"
      "ReleaseMessage (q Q) (Id msg) (ReservationId msg) (?d sdiv Second)" s tr]
  have A: "\<exists>k. 1 \<le> k \<and> k \<le> 3
        \<and> snd (snd (Release (traced_Queue Q) msg (s, tr)))
          = tr @ replicate k (CReleaseMessage (Id msg) (ReservationId msg) (?d sdiv Second))"
    by (auto simp: Release_def traced_Queue_def traced_def)
  from A sdiv_truncates[OF S, of ?d] show ?thesis by blast
qed

theorem C10_Release_whole_seconds_witness:
  "snd (snd (Release (traced_Queue scripted_Queue) ((demo_msg 0)\<lparr>Delay := 1500000000\<rparr>) ([], [])))
     = [CReleaseMessage ''m'' ''r'' 1]
   \<and> snd (snd (Release (traced_Queue scripted_Queue) ((demo_msg 0)\<lparr>Delay := 999999999\<rparr>) ([], [])))
     = [CReleaseMessage ''m'' ''r'' 0]"
  using C10_Release_whole_seconds[of scripted_Queue "(demo_msg 0)\<lparr>Delay := 1500000000\<rparr>" "[]" "[]"]
    C10_Release_whole_seconds[of scripted_Queue "(demo_msg 0)\<lparr>Delay := 999999999\<rparr>" "[]" "[]"]
  by (simp add: Release_def retry_def traced_Queue_def traced_def logged_def scripted_Queue_def
      scripted_mq_def scripted_def demo_msg_def Second_def signed_divide_int_def)

end
